theory Spec2Isabelle
  imports Main
begin

section \<open>Values of the host language\<close>

text \<open>
  The library is written in TypeScript. Its chain engine looks at a value in these ways
  only: is it an \<open>Error\<close> instance, is it a string, is it promise-like (does it carry a
  callable \<open>then\<close>), what are its fields \<open>isOk\<close>, \<open>value\<close> and \<open>error\<close>, is a field
  truthy, and what does \<open>JSON.stringify\<close> make of it.

  A promise of the host is represented by its eventual settlement: fulfilled with a
  value, rejected with a reason, or never settled. Awaiting such a promise never yields
  a promise-like value (the host flattens), so a fulfilment value is a \<open>plain\<close> value by
  construction.

  An object with a hand-written \<open>then\<close> is promise-like too. It is described by what its
  \<open>then\<close> does when called: which of its two arguments it invokes (at most one, once,
  before it returns) and with what, and what the call returns or raises. What the
  invoked argument returns is dropped, and what it raises leaves \<open>then\<close>.

  An object identity is a natural number. An \<open>Error\<close> built with \<open>new Error\<close> carries its
  identity and its message; a \<open>TypeError\<close> the host raises carries its message only.
  \<open>Hook x\<close> is an object whose \<open>toJSON\<close> raises \<open>x\<close>.
\<close>

type_synonym addr = nat

datatype ('a, 'e) promise = Fulfilled 'a | Rejected 'e | Unsettled

datatype ('a, 'e) ending = Return 'a | Throw 'e

datatype 'v invokes = Fulfils 'v | Rejects 'v | Silent

datatype plain =
    Undefined
  | Null
  | Bool bool
  | Num int
  | Str string
  | BigInt int
  | Obj "(string \<times> plain) list"
  | Err addr string
  | TypeError string
  | Hook plain

datatype val =
    Plain plain
  | Promise "(plain, val) promise"
  | Thenable "val invokes" "(val, val) ending"

text \<open>What running a function body produces: a returned value or a raised one.\<close>

type_synonym outcome = "(val, val) ending"

text \<open>\<open>src/shared.ts\<close>: \<open>isPromiseLike(x) = isFunction(x?.then)\<close>.\<close>

fun isPromiseLike :: "val \<Rightarrow> bool" where
  "isPromiseLike (Promise p) = True"
| "isPromiseLike (Thenable c e) = True"
| "isPromiseLike (Plain v) = False"

fun instanceof_Error :: "val \<Rightarrow> bool" where
  "instanceof_Error (Plain (Err i m)) = True"
| "instanceof_Error (Plain (TypeError m)) = True"
| "instanceof_Error v = False"

fun truthy :: "val \<Rightarrow> bool" where
  "truthy (Plain Undefined) = False"
| "truthy (Plain Null) = False"
| "truthy (Plain (Bool b)) = b"
| "truthy (Plain (Num n)) = (n \<noteq> 0)"
| "truthy (Plain (Str s)) = (s \<noteq> [])"
| "truthy (Plain (BigInt n)) = (n \<noteq> 0)"
| "truthy v = True"

text \<open>
  Reading a field: of \<open>undefined\<close> and \<open>null\<close> it raises, of an object it is the field or
  \<open>undefined\<close>, of anything else \<open>undefined\<close>.
\<close>

datatype field = Field_isOk | Field_error | Field_value

fun field_name :: "field \<Rightarrow> string" where
  "field_name Field_isOk = ''isOk''"
| "field_name Field_error = ''error''"
| "field_name Field_value = ''value''"

fun own_field :: "plain \<Rightarrow> field \<Rightarrow> plain" where
  "own_field (Obj fs) f = (case map_of fs (field_name f) of Some v \<Rightarrow> v | None \<Rightarrow> Undefined)"
| "own_field x f = Undefined"

fun field_of :: "val \<Rightarrow> field \<Rightarrow> outcome" where
  "field_of (Plain Undefined) f =
     Throw (Plain (TypeError ''Cannot read properties of undefined''))"
| "field_of (Plain Null) f = Throw (Plain (TypeError ''Cannot read properties of null''))"
| "field_of (Plain x) f = Return (Plain (own_field x f))"
| "field_of v f = Return (Plain Undefined)"

section \<open>Results and the world they live in\<close>

text \<open>
  \<open>SafeResult\<close> is the object \<open>{ isOk, error, value }\<close> that \<open>ok\<close>, \<open>fail\<close> and the spread in
  \<open>watch\<close> build. These objects are mutable host objects, so they live in a store and
  are handled by address. What a callback of the chain is applied to is such an object,
  or, when a hand-written \<open>then\<close> or a promise of the caller supplied it, any value.
\<close>

record SafeResult =
  isOk :: bool
  error :: val
  "value" :: val

datatype subject = Own addr | Foreign val

text \<open>
  \<open>JSON.stringify\<close> belongs to the host. It returns a text, returns \<open>undefined\<close>, or
  raises: a \<open>TypeError\<close> of its own, or whatever a \<open>toJSON\<close> hook raised. Which of these
  happens for which value is left open: the serializer is a component of the world, and
  every property below holds for every serializer.
\<close>

datatype serialized = Text string | NoText | Raises val

text \<open>
  The trace records every invocation of the function argument of a chain method:
  \<open>Called x\<close> for a transform, effect or handler applied to \<open>x\<close>, and \<open>Observed r\<close> for a
  watch consumer applied to an object whose fields are \<open>r\<close>.
\<close>

datatype event = Called val | Observed SafeResult

record 'u world =
  JSON_stringify :: "val \<Rightarrow> serialized"
  store :: "addr \<Rightarrow> SafeResult"
  fresh :: addr
  trace :: "event list"
  user :: 'u

text \<open>
  A function supplied by the caller runs on the caller's own state \<open>'u\<close>. A watch consumer
  is handed an object by reference: it sees the fields of that object and leaves the
  fields it wants in it.
\<close>

type_synonym 'u fn = "val \<Rightarrow> 'u \<Rightarrow> outcome \<times> 'u"
type_synonym 'u consumer = "SafeResult \<Rightarrow> 'u \<Rightarrow> (outcome \<times> SafeResult) \<times> 'u"

definition alloc :: "SafeResult \<Rightarrow> 'u world \<Rightarrow> addr \<times> 'u world" where
  "alloc r w = (fresh w, w\<lparr>store := (store w)(fresh w := r), fresh := Suc (fresh w)\<rparr>)"

definition new_Error :: "string \<Rightarrow> 'u world \<Rightarrow> val \<times> 'u world" where
  "new_Error message w = (Plain (Err (fresh w) message), w\<lparr>fresh := Suc (fresh w)\<rparr>)"

definition call :: "'u fn \<Rightarrow> val \<Rightarrow> 'u world \<Rightarrow> outcome \<times> 'u world" where
  "call f x w =
     (let (out, u') = f x (user w)
      in (out, w\<lparr>trace := trace w @ [Called x], user := u'\<rparr>))"

definition observe :: "'u consumer \<Rightarrow> addr \<Rightarrow> 'u world \<Rightarrow> outcome \<times> 'u world" where
  "observe consumer a w =
     (let ((out, r'), u') = consumer (store w a) (user w)
      in (out, w\<lparr>store := (store w)(a := r'),
                 trace := trace w @ [Observed (store w a)], user := u'\<rparr>))"

text \<open>Reading a field of what a callback is applied to.\<close>

fun get :: "'u world \<Rightarrow> subject \<Rightarrow> field \<Rightarrow> outcome" where
  "get w (Own a) Field_isOk = Return (Plain (Bool (isOk (store w a))))"
| "get w (Own a) Field_error = Return (error (store w a))"
| "get w (Own a) Field_value = Return (value (store w a))"
| "get w (Foreign v) f = field_of v f"

text \<open>\<open>const x = ...; rest\<close> where evaluating \<open>x\<close> may raise.\<close>

definition reading :: "outcome \<Rightarrow> 'w \<Rightarrow> (val \<Rightarrow> outcome \<times> 'w) \<Rightarrow> outcome \<times> 'w" where
  "reading r w rest = (case r of Throw e \<Rightarrow> (Throw e, w) | Return v \<Rightarrow> rest v)"

text \<open>The statements \<open>if (x.isOk) return x.value; throw x.error\<close>.\<close>

definition yield :: "'u world \<Rightarrow> subject \<Rightarrow> outcome" where
  "yield w x =
     (case get w x Field_isOk of
        Throw e \<Rightarrow> Throw e
      | Return b \<Rightarrow>
          if truthy b then get w x Field_value
          else (case get w x Field_error of Throw e \<Rightarrow> Throw e | Return e \<Rightarrow> Throw e))"

section \<open>Promises of the host and hand-written thenables\<close>

text \<open>
  \<open>p.then(onFulfilled, onRejected)\<close> on a promise of the host: the reaction that matches
  the settlement of \<open>p\<close> runs, and what it produces settles the new promise. A reaction
  completes normally with a value that is not promise-like, hands over a promise to
  adopt, or raises. A promise that never settles runs no reaction.

  The host runs a reaction after the synchronous code that attached it; here it runs
  when it is attached, on the world of that moment. Within one chain the order of the
  reactions is the same, and nothing a reaction of the library reads is written in
  between: a result object is not written after its allocation. Whether a value is
  available now or only through a promise stays visible in \<open>Immediate\<close> and \<open>Pending\<close>
  below.
\<close>

datatype 'b completion = Normal 'b | Adopt "('b, val) promise" | Abrupt val

fun settle :: "'b completion \<Rightarrow> ('b, val) promise" where
  "settle (Normal y) = Fulfilled y"
| "settle (Adopt q) = q"
| "settle (Abrupt e) = Rejected e"

fun promise_then ::
  "('a, val) promise \<Rightarrow> ('a \<Rightarrow> 'w \<Rightarrow> 'b completion \<times> 'w) \<Rightarrow>
     (val \<Rightarrow> 'w \<Rightarrow> 'b completion \<times> 'w) \<Rightarrow> 'w \<Rightarrow> ('b, val) promise \<times> 'w" where
  "promise_then (Fulfilled x) onFulfilled onRejected w =
     (let (c, w') = onFulfilled x w in (settle c, w'))"
| "promise_then (Rejected e) onFulfilled onRejected w =
     (let (c, w') = onRejected e w in (settle c, w'))"
| "promise_then Unsettled onFulfilled onRejected w = (Unsettled, w)"

text \<open>
  What the host makes of a value a promise is resolved with: a promise of the host is
  adopted; the \<open>then\<close> of a hand-written thenable is called with the promise's resolving
  functions, and the first call of one of them, or a raise before any, settles the
  promise.
\<close>

fun resolve_val :: "val \<Rightarrow> (plain, val) promise" where
  "resolve_val (Plain x) = Fulfilled x"
| "resolve_val (Promise p) = p"
| "resolve_val (Thenable (Fulfils x) e) = resolve_val x"
| "resolve_val (Thenable (Rejects r) e) = Rejected r"
| "resolve_val (Thenable Silent (Throw r)) = Rejected r"
| "resolve_val (Thenable Silent (Return x)) = Unsettled"

text \<open>The completion of a reaction written as an ordinary function body.\<close>

fun resolution :: "outcome \<Rightarrow> plain completion" where
  "resolution (Return v) = Adopt (resolve_val v)"
| "resolution (Throw e) = Abrupt e"

text \<open>The reaction \<open>then\<close> uses when no \<open>onRejected\<close> is given.\<close>

definition rethrow :: "val \<Rightarrow> 'w \<Rightarrow> 'b completion \<times> 'w" where
  "rethrow e w = (Abrupt e, w)"

text \<open>\<open>Promise.resolve(x)\<close> for a result object or a boolean \<open>x\<close>, which are not promise-like.\<close>

definition Promise_resolve :: "'a \<Rightarrow> ('a, val) promise" where
  "Promise_resolve x = Fulfilled x"

text \<open>
  Calling a hand-written \<open>then\<close>. Of what the invoked argument does only its effect on
  the world and whether it raised matter (\<open>Some e\<close>: it raised \<open>e\<close>).
\<close>

fun run_then ::
  "val invokes \<Rightarrow> outcome \<Rightarrow> (val \<Rightarrow> 'w \<Rightarrow> val option \<times> 'w) \<Rightarrow>
     (val \<Rightarrow> 'w \<Rightarrow> val option \<times> 'w) option \<Rightarrow> 'w \<Rightarrow> outcome \<times> 'w" where
  "run_then (Fulfils x) e onFulfilled onRejected w =
     (case onFulfilled x w of
        (Some raised, w') \<Rightarrow> (Throw raised, w')
      | (None, w') \<Rightarrow> (e, w'))"
| "run_then (Rejects r) e onFulfilled None w =
     (Throw (Plain (TypeError ''onrejected is not a function'')), w)"
| "run_then (Rejects r) e onFulfilled (Some onRejected) w =
     (case onRejected r w of
        (Some raised, w') \<Rightarrow> (Throw raised, w')
      | (None, w') \<Rightarrow> (e, w'))"
| "run_then Silent e onFulfilled onRejected w = (e, w)"

fun raised :: "outcome \<Rightarrow> val option" where
  "raised (Throw e) = Some e"
| "raised (Return v) = None"

text \<open>\<open>v.then(onFulfilled)\<close> for any value \<open>v\<close>.\<close>

definition then_val :: "val \<Rightarrow> (val \<Rightarrow> 'w \<Rightarrow> outcome \<times> 'w) \<Rightarrow> 'w \<Rightarrow> outcome \<times> 'w" where
  "then_val v onFulfilled w =
     (case v of
        Promise p \<Rightarrow>
          (let (q, w') = promise_then p
                 (\<lambda>x w. let (out, w') = onFulfilled (Plain x) w in (resolution out, w'))
                 rethrow w
           in (Return (Promise q), w'))
      | Thenable c e \<Rightarrow>
          run_then c e (\<lambda>x w. let (out, w') = onFulfilled x w in (raised out, w')) None w
      | Plain x \<Rightarrow> (Throw (Plain (TypeError ''then is not a function'')), w))"

section \<open>Result representation and the updater\<close>

text \<open>
  \<open>normalizeError\<close> is a \<open>try\<close> block and a \<open>catch\<close> clause. \<open>normalize_try\<close> is the block,
  its tests in the order of the source: \<open>instanceof Error\<close>, \<open>typeof == 'string'\<close>, then
  \<open>new Error(JSON.stringify(error))\<close>; its only raising branch is the serializer. The
  clause binds the caught value to the name \<open>error\<close> again and returns it.
\<close>

definition normalize_try :: "val \<Rightarrow> 'u world \<Rightarrow> outcome \<times> 'u world" where
  "normalize_try e w =
     (if instanceof_Error e then (Return e, w)
      else case e of
        Plain (Str s) \<Rightarrow> (let (e', w') = new_Error s w in (Return e', w'))
      | _ \<Rightarrow>
         (case JSON_stringify w e of
            Text s \<Rightarrow> (let (e', w') = new_Error s w in (Return e', w'))
          | NoText \<Rightarrow> (let (e', w') = new_Error [] w in (Return e', w'))
          | Raises x \<Rightarrow> (Throw x, w)))"

definition normalizeError :: "val \<Rightarrow> 'u world \<Rightarrow> val \<times> 'u world" where
  "normalizeError e w =
     (case normalize_try e w of
        (Return e', w') \<Rightarrow> (e', w')
      | (Throw caught, w') \<Rightarrow> (caught, w'))"

definition ok :: "val \<Rightarrow> 'u world \<Rightarrow> addr \<times> 'u world" where
  "ok v w = alloc \<lparr>isOk = True, error = Plain Undefined, value = v\<rparr> w"

definition fail :: "val \<Rightarrow> 'u world \<Rightarrow> addr \<times> 'u world" where
  "fail e w =
     (let (e', w1) = normalizeError e w
      in alloc \<lparr>isOk = False, error = e', value = Plain Undefined\<rparr> w1)"

text \<open>
  What \<open>update\<close> takes and returns, and what a chain holds. By its type it is a result
  object or a promise of one. The code returns what the \<open>then\<close> of a promise-like value
  returned, under a cast: for a hand-written \<open>then\<close> that is any value at all (\<open>Stray\<close>).
\<close>

datatype result = Immediate addr | Pending "(addr, val) promise" | Stray val

text \<open>
  \<open>x.then(onOk, onFail)\<close> where the two reactions build a result object from what they are
  given; \<open>wrap\<close> is what they do with the object (\<open>update\<close> has them return it in one place
  and return \<open>Promise.resolve\<close> of it in the other).
\<close>

definition then_results ::
  "(addr \<Rightarrow> addr completion) \<Rightarrow> val \<Rightarrow> 'u world \<Rightarrow> (result, val) ending \<times> 'u world" where
  "then_results wrap x w =
     (case x of
        Promise p \<Rightarrow>
          (let (q, w') = promise_then p
                 (\<lambda>v w. let (a, w') = ok (Plain v) w in (wrap a, w'))
                 (\<lambda>e w. let (a, w') = fail e w in (wrap a, w')) w
           in (Return (Pending q), w'))
      | Thenable c e \<Rightarrow>
          (case run_then c e (\<lambda>v w. (None, snd (ok v w)))
                  (Some (\<lambda>e w. (None, snd (fail e w)))) w of
             (Throw r, w') \<Rightarrow> (Throw r, w')
           | (Return r, w') \<Rightarrow> (Return (Stray r), w'))
      | Plain y \<Rightarrow> (Throw (Plain (TypeError ''then is not a function'')), w))"

text \<open>
  Folding a callback's raw outcome: the \<open>try\<close> block of \<open>update\<close> from the test
  \<open>isPromiseLike(next)\<close> on, and its \<open>catch\<close> clause. Every branch returns: what the
  block raises the clause catches, and \<open>fail\<close> does not raise.
\<close>

definition fold :: "outcome \<Rightarrow> 'u world \<Rightarrow> result \<times> 'u world" where
  "fold out w =
     (case out of
        Return next \<Rightarrow>
          if isPromiseLike next
          then (case then_results (\<lambda>a. Adopt (Promise_resolve a)) next w of
                  (Throw e, w1) \<Rightarrow> (let (a, w2) = fail e w1 in (Immediate a, w2))
                | (Return r, w1) \<Rightarrow> (r, w1))
          else (let (a, w1) = ok next w in (Immediate a, w1))
      | Throw e \<Rightarrow> (let (a, w1) = fail e w in (Immediate a, w1)))"

text \<open>
  \<open>update\<close>: the first test is \<open>isPromiseLike(prev)\<close>, whose branch
  \<open>prev.then(cb).then(ok, fail)\<close> is outside the \<open>try\<close> block.
\<close>

definition update ::
  "result \<Rightarrow> (subject \<Rightarrow> 'u world \<Rightarrow> outcome \<times> 'u world) \<Rightarrow> 'u world \<Rightarrow>
     (result, val) ending \<times> 'u world" where
  "update prev cb w =
     (case prev of
        Pending p \<Rightarrow>
          (let (q, w1) = promise_then p
                 (\<lambda>r w. let (out, w') = cb (Own r) w in (resolution out, w')) rethrow w
           in then_results Normal (Promise q) w1)
      | Stray v \<Rightarrow>
          if isPromiseLike v
          then (case then_val v (\<lambda>x. cb (Foreign x)) w of
                  (Throw e, w1) \<Rightarrow> (Throw e, w1)
                | (Return r, w1) \<Rightarrow> then_results Normal r w1)
          else (let (out, w1) = cb (Foreign v) w; (res, w2) = fold out w1 in (Return res, w2))
      | Immediate r \<Rightarrow>
          (let (out, w1) = cb (Own r) w; (res, w2) = fold out w1 in (Return res, w2)))"

section \<open>The chain\<close>

text \<open>
  \<open>createChain(result)\<close> returns an object whose methods close over \<open>result\<close> and whose
  \<open>isOk\<close> property is computed when the object is built; building it raises when that
  computation does. The record keeps both; the methods are the functions below.
  \<open>flatMap\<close> is left out: its transform returns a chain, and no property stated here
  concerns it.
\<close>

record Safe =
  result :: result
  Safe_isOk :: val

definition createChain :: "result \<Rightarrow> 'u world \<Rightarrow> (Safe, val) ending" where
  "createChain res w =
     (case (case res of
              Pending p \<Rightarrow>
                Return (Promise (fst (promise_then p
                  (\<lambda>v w. (Adopt (Promise_resolve (Bool (isOk (store w v)))), w)) rethrow w)))
            | Stray v \<Rightarrow>
                if isPromiseLike v
                then fst (then_val v
                       (\<lambda>x w. (case field_of x Field_isOk of
                                  Return y \<Rightarrow> Return (Promise (resolve_val y))
                                | Throw e \<Rightarrow> Throw e, w)) w)
                else field_of v Field_isOk
            | Immediate r \<Rightarrow> get w (Own r) Field_isOk) of
        Return flag \<Rightarrow> Return \<lparr>result = res, Safe_isOk = flag\<rparr>
      | Throw e \<Rightarrow> Throw e)"

definition "next" ::
  "Safe \<Rightarrow> (subject \<Rightarrow> 'u world \<Rightarrow> outcome \<times> 'u world) \<Rightarrow> 'u world \<Rightarrow>
     (Safe, val) ending \<times> 'u world" where
  "next chain cb w =
     (case update (result chain) cb w of
        (Throw e, w') \<Rightarrow> (Throw e, w')
      | (Return r, w') \<Rightarrow> (createChain r w', w'))"

text \<open>
  Each method hands \<open>next\<close> an arrow function. The source writes the same function body
  for \<open>effect\<close> and \<open>ifOk\<close>, and the same for \<open>catch\<close> and \<open>ifFail\<close>.
\<close>

definition map_callback :: "'u fn \<Rightarrow> subject \<Rightarrow> 'u world \<Rightarrow> outcome \<times> 'u world" where
  "map_callback transform prev w =
     reading (get w prev Field_isOk) w (\<lambda>b.
       if truthy b
       then reading (get w prev Field_value) w (\<lambda>v. call transform v w)
       else reading (get w prev Field_error) w (\<lambda>e. (Throw e, w)))"

definition map_chain :: "'u fn \<Rightarrow> Safe \<Rightarrow> 'u world \<Rightarrow> (Safe, val) ending \<times> 'u world" where
  "map_chain transform chain = next chain (map_callback transform)"

definition effect_callback :: "'u fn \<Rightarrow> subject \<Rightarrow> 'u world \<Rightarrow> outcome \<times> 'u world" where
  "effect_callback effectFn prev w =
     reading (get w prev Field_isOk) w (\<lambda>b.
       if \<not> truthy b
       then reading (get w prev Field_error) w (\<lambda>e. (Throw e, w))
       else reading (get w prev Field_value) w (\<lambda>x.
         case call effectFn x w of
           (Throw e, w1) \<Rightarrow> (Throw e, w1)
         | (Return v, w1) \<Rightarrow>
             if isPromiseLike v
             then then_val v (\<lambda>_ w. (get w prev Field_value, w)) w1
             else (get w1 prev Field_value, w1)))"

definition effect :: "'u fn \<Rightarrow> Safe \<Rightarrow> 'u world \<Rightarrow> (Safe, val) ending \<times> 'u world" where
  "effect effectFn chain = next chain (effect_callback effectFn)"

definition ifOk :: "'u fn \<Rightarrow> Safe \<Rightarrow> 'u world \<Rightarrow> (Safe, val) ending \<times> 'u world" where
  "ifOk effectFn chain = next chain (effect_callback effectFn)"

text \<open>
  \<open>watch\<close>: \<open>{ ...prev }\<close> allocates a new object with the fields of \<open>prev\<close>; the consumer
  gets that object; whatever the consumer returns or raises is dropped; the fields of
  \<open>prev\<close> are read afterwards. When \<open>prev\<close> is not a result object of the library, the
  new object has the fields of that value, \<open>isOk\<close> read for its truth.
\<close>

definition spread :: "'u world \<Rightarrow> subject \<Rightarrow> SafeResult" where
  "spread w prev =
     (case prev of
        Own a \<Rightarrow> store w a
      | Foreign (Plain x) \<Rightarrow>
          \<lparr>isOk = truthy (Plain (own_field x Field_isOk)),
           error = Plain (own_field x Field_error), value = Plain (own_field x Field_value)\<rparr>
      | Foreign _ \<Rightarrow> \<lparr>isOk = False, error = Plain Undefined, value = Plain Undefined\<rparr>)"

definition watch_callback ::
  "'u consumer \<Rightarrow> subject \<Rightarrow> 'u world \<Rightarrow> outcome \<times> 'u world" where
  "watch_callback consumer prev w =
     (let (snapshot, w1) = alloc (spread w prev) w;
          w2 = snd (observe consumer snapshot w1)
      in (yield w2 prev, w2))"

definition watch :: "'u consumer \<Rightarrow> Safe \<Rightarrow> 'u world \<Rightarrow> (Safe, val) ending \<times> 'u world" where
  "watch consumer chain = next chain (watch_callback consumer)"

definition catch_callback :: "'u fn \<Rightarrow> subject \<Rightarrow> 'u world \<Rightarrow> outcome \<times> 'u world" where
  "catch_callback handler res w =
     reading (get w res Field_isOk) w (\<lambda>b.
       if \<not> truthy b
       then reading (get w res Field_error) w (\<lambda>e. call handler e w)
       else (get w res Field_value, w))"

definition catch :: "'u fn \<Rightarrow> Safe \<Rightarrow> 'u world \<Rightarrow> (Safe, val) ending \<times> 'u world" where
  "catch handler chain = next chain (catch_callback handler)"

definition ifFail :: "'u fn \<Rightarrow> Safe \<Rightarrow> 'u world \<Rightarrow> (Safe, val) ending \<times> 'u world" where
  "ifFail handler chain = next chain (catch_callback handler)"

definition unwrap :: "Safe \<Rightarrow> 'u world \<Rightarrow> outcome" where
  "unwrap chain w =
     (case result chain of
        Pending p \<Rightarrow>
          Return (Promise (fst (promise_then p
            (\<lambda>v w. (resolution (yield w (Own v)), w)) rethrow w)))
      | Stray v \<Rightarrow>
          if isPromiseLike v
          then fst (then_val v (\<lambda>x w. (yield w (Foreign x), w)) w)
          else yield w (Foreign v)
      | Immediate r \<Rightarrow> yield w (Own r))"

definition orElse_callback :: "val \<Rightarrow> subject \<Rightarrow> 'u world \<Rightarrow> outcome \<times> 'u world" where
  "orElse_callback fallback res w =
     reading (get w res Field_isOk) w (\<lambda>b.
       if \<not> truthy b then (Return fallback, w) else (get w res Field_value, w))"

definition orElse :: "val \<Rightarrow> Safe \<Rightarrow> 'u world \<Rightarrow> outcome \<times> 'u world" where
  "orElse fallback chain w =
     (case next chain (orElse_callback fallback) w of
        (Throw e, w') \<Rightarrow> (Throw e, w')
      | (Return c, w') \<Rightarrow> (unwrap c w', w'))"

section \<open>Construction helpers\<close>

text \<open>
  \<open>safeValue\<close> and \<open>safeExec\<close>: the \<open>catch\<close> clause is entered when \<open>chain.map\<close> raises,
  which it does when building the new chain raises.
\<close>

definition safeEmpty :: "'u world \<Rightarrow> (Safe, val) ending \<times> 'u world" where
  "safeEmpty w = (let (r, w1) = ok (Plain Undefined) w in (createChain (Immediate r) w1, w1))"

definition safeValue :: "val \<Rightarrow> 'u world \<Rightarrow> (Safe, val) ending \<times> 'u world" where
  "safeValue v w =
     (let (r, w1) = ok (Plain Undefined) w
      in case createChain (Immediate r) w1 of
           Throw e \<Rightarrow> (Throw e, w1)
         | Return chain \<Rightarrow>
             (case map_chain (\<lambda>_ u. (Return v, u)) chain w1 of
                (Return c, w2) \<Rightarrow> (Return c, w2)
              | (Throw e, w2) \<Rightarrow> map_chain (\<lambda>_ u. (Throw e, u)) chain w2))"

definition safeExec :: "('u \<Rightarrow> outcome \<times> 'u) \<Rightarrow> 'u world \<Rightarrow> (Safe, val) ending \<times> 'u world" where
  "safeExec fn w =
     (let (r, w1) = ok (Plain Undefined) w
      in case createChain (Immediate r) w1 of
           Throw e \<Rightarrow> (Throw e, w1)
         | Return chain \<Rightarrow>
             (case map_chain (\<lambda>_ u. fn u) chain w1 of
                (Return c, w2) \<Rightarrow> (Return c, w2)
              | (Throw e, w2) \<Rightarrow> map_chain (\<lambda>_ u. (Throw e, u)) chain w2))"

section \<open>Notions used to state the properties\<close>

text \<open>
  An outcome is orderly when it is not the return of an object with a hand-written
  \<open>then\<close>: it is a raise, or the return of a value that is not promise-like or of a
  promise of the host.
\<close>

fun handmade :: "val \<Rightarrow> bool" where
  "handmade (Thenable c e) = True"
| "handmade v = False"

fun orderly :: "outcome \<Rightarrow> bool" where
  "orderly (Return v) = (\<not> handmade v)"
| "orderly (Throw e) = True"

text \<open>
  The pending form of a result and of an outcome: what they become when they are reached
  through a promise of the host instead of directly.
\<close>

definition deferred :: "result \<Rightarrow> result" where
  "deferred r = (case r of Immediate a \<Rightarrow> Pending (Fulfilled a) | _ \<Rightarrow> r)"

definition in_time :: "outcome \<Rightarrow> outcome" where
  "in_time out = Return (Promise (settle (resolution out)))"

text \<open>
  What an orderly outcome looks like after folding: a raised value and a rejection
  reason are normalized, and \<open>isOk\<close> tells a return from a raise, now or in time.
\<close>

definition normalize_outcome :: "'u world \<Rightarrow> outcome \<Rightarrow> outcome" where
  "normalize_outcome w out =
     (case out of
        Throw e \<Rightarrow> Throw (fst (normalizeError e w))
      | Return (Promise (Rejected e)) \<Rightarrow> Return (Promise (Rejected (fst (normalizeError e w))))
      | _ \<Rightarrow> out)"

fun outcome_isOk :: "outcome \<Rightarrow> val" where
  "outcome_isOk (Return (Promise (Fulfilled x))) = Promise (Fulfilled (Bool True))"
| "outcome_isOk (Return (Promise (Rejected e))) = Promise (Fulfilled (Bool False))"
| "outcome_isOk (Return (Promise Unsettled)) = Promise Unsettled"
| "outcome_isOk (Return v) = Plain (Bool True)"
| "outcome_isOk (Throw e) = Plain (Bool False)"

fun in_time_flag :: "val \<Rightarrow> val" where
  "in_time_flag (Plain x) = Promise (Fulfilled x)"
| "in_time_flag v = v"

text \<open>
  A chain is pending when its result is a promise of the host, and it holds the result
  object \<open>a\<close> when its result is \<open>a\<close> or a promise of the host that resolves to \<open>a\<close>.
\<close>

fun pending :: "result \<Rightarrow> bool" where
  "pending (Pending p) = True"
| "pending r = False"

fun settled :: "result \<Rightarrow> addr option" where
  "settled (Immediate a) = Some a"
| "settled (Pending (Fulfilled a)) = Some a"
| "settled r = None"

text \<open>
  The shape of what \<open>ok\<close> and \<open>fail\<close> build when no hand-written \<open>then\<close> is involved: an
  allocated object, a success with a value that is not promise-like and no error, or a
  failure with no value. Its error is whatever \<open>normalizeError\<close> returned. A chain is
  well-formed when it was built on such an object, on a promise of the host resolving to
  one, or on a promise of the host that never settles.
\<close>

definition wf_result :: "'u world \<Rightarrow> addr \<Rightarrow> bool" where
  "wf_result w a \<longleftrightarrow>
     a < fresh w \<and>
     (if isOk (store w a)
      then \<not> isPromiseLike (value (store w a)) \<and> error (store w a) = Plain Undefined
      else value (store w a) = Plain Undefined)"

fun wf :: "'u world \<Rightarrow> result \<Rightarrow> bool" where
  "wf w (Immediate a) = wf_result w a"
| "wf w (Pending (Fulfilled a)) = wf_result w a"
| "wf w (Pending Unsettled) = True"
| "wf w r = False"

definition wf_chain :: "'u world \<Rightarrow> Safe \<Rightarrow> bool" where
  "wf_chain w c \<longleftrightarrow> wf w (result c) \<and> createChain (result c) w = Return c"

text \<open>
  A sequence of chain operations, each applied to the chain the previous one produced;
  it ends where building a chain raises. \<open>chain_sequence\<close> lists what every operation
  of the sequence produced, with the world it was produced in.
\<close>

datatype 'u step =
    Map "'u fn" | Effect "'u fn" | IfOk "'u fn" | Watch "'u consumer"
  | Catch "'u fn" | IfFail "'u fn"

fun apply_step :: "'u step \<Rightarrow> Safe \<Rightarrow> 'u world \<Rightarrow> (Safe, val) ending \<times> 'u world" where
  "apply_step (Map f) = map_chain f"
| "apply_step (Effect f) = effect f"
| "apply_step (IfOk f) = ifOk f"
| "apply_step (Watch c) = watch c"
| "apply_step (Catch h) = catch h"
| "apply_step (IfFail h) = ifFail h"

fun chain_sequence ::
  "'u step list \<Rightarrow> Safe \<Rightarrow> 'u world \<Rightarrow> ((Safe, val) ending \<times> 'u world) list" where
  "chain_sequence [] c w = []"
| "chain_sequence (s # ss) c w =
     (case apply_step s c w of
        (Return c', w') \<Rightarrow> (Return c', w') # chain_sequence ss c' w'
      | (Throw e, w') \<Rightarrow> [(Throw e, w')])"

section \<open>A concrete world for examples\<close>

text \<open>
  A serializer that follows \<open>JSON.stringify\<close> on the values described here: decimal
  numbers, quoted strings (quotes and backslashes escaped), the members of an object in
  order without those that have no text, \<open>{}\<close> for an error, a promise and an object
  with a \<open>then\<close> method; it raises a \<open>TypeError\<close> for a \<open>BigInt\<close> and whatever a \<open>toJSON\<close>
  hook raises.
\<close>

fun digits :: "nat \<Rightarrow> string" where
  "digits n =
     (if n < 10 then [char_of (48 + n)] else digits (n div 10) @ [char_of (48 + n mod 10)])"

declare digits.simps [simp del]

definition decimal :: "int \<Rightarrow> string" where
  "decimal i = (if i < 0 then CHR ''-'' # digits (nat (- i)) else digits (nat i))"

definition quote :: "string \<Rightarrow> string" where
  "quote s =
     CHR 0x22 #
       concat (map (\<lambda>c. if c = CHR 0x22 \<or> c = CHR 0x5C then [CHR 0x5C, c] else [c]) s) @
     [CHR 0x22]"

fun json :: "plain \<Rightarrow> serialized"
  and json_members :: "(string \<times> plain) list \<Rightarrow> (string list, val) ending" where
  "json Undefined = NoText"
| "json Null = Text ''null''"
| "json (Bool b) = Text (if b then ''true'' else ''false'')"
| "json (Num n) = Text (decimal n)"
| "json (Str s) = Text (quote s)"
| "json (BigInt n) = Raises (Plain (TypeError ''Do not know how to serialize a BigInt''))"
| "json (Obj fs) =
     (case json_members fs of
        Throw e \<Rightarrow> Raises e
      | Return ms \<Rightarrow> Text (''{'' @ concat (case ms of [] \<Rightarrow> [] | m # ms' \<Rightarrow> m # map ((#) CHR '','') ms') @ ''}''))"
| "json (Err i m) = Text ''{}''"
| "json (TypeError m) = Text ''{}''"
| "json (Hook x) = Raises (Plain x)"
| "json_members [] = Return []"
| "json_members ((k, v) # fs) =
     (case json v of
        Raises e \<Rightarrow> Throw e
      | NoText \<Rightarrow> json_members fs
      | Text t \<Rightarrow>
          (case json_members fs of
             Throw e \<Rightarrow> Throw e
           | Return ms \<Rightarrow> Return ((quote k @ '':'' @ t) # ms)))"

fun example_stringify :: "val \<Rightarrow> serialized" where
  "example_stringify (Plain x) = json x"
| "example_stringify v = Text ''{}''"

definition world0 :: "nat world" where
  "world0 =
     \<lparr>JSON_stringify = example_stringify,
      store = (\<lambda>_. \<lparr>isOk = False, error = Plain Undefined, value = Plain Undefined\<rparr>),
      fresh = 0, trace = [], user = 0\<rparr>"

text \<open>
  Chains built with the construction helpers in that world, with the world they were
  built in: \<open>safeValue(42)\<close>; \<open>safeExec(() => { throw 'boom' })\<close>; \<open>safeValue\<close> of a
  promise that resolves to \<open>2\<close>; \<open>safeExec(() => { throw { toJSON() { throw 'raw' } } })\<close>.
\<close>

definition chain42 :: Safe where
  "chain42 = \<lparr>result = Immediate 1, Safe_isOk = Plain (Bool True)\<rparr>"

definition world42 :: "nat world" where
  "world42 = snd (safeValue (Plain (Num 42)) world0)"

definition boom :: "nat \<Rightarrow> outcome \<times> nat" where
  "boom u = (Throw (Plain (Str ''boom'')), u)"

definition failed_chain :: Safe where
  "failed_chain = \<lparr>result = Immediate 2, Safe_isOk = Plain (Bool False)\<rparr>"

definition failed_world :: "nat world" where
  "failed_world = snd (safeExec boom world0)"

definition pending_chain :: Safe where
  "pending_chain = \<lparr>result = Pending (Fulfilled 1), Safe_isOk = Promise (Fulfilled (Bool True))\<rparr>"

definition pending_world :: "nat world" where
  "pending_world = snd (safeValue (Promise (Fulfilled (Num 2))) world0)"

definition raw_hook :: "nat \<Rightarrow> outcome \<times> nat" where
  "raw_hook u = (Throw (Plain (Hook (Str ''raw''))), u)"

definition raw_chain :: Safe where
  "raw_chain = \<lparr>result = Immediate 1, Safe_isOk = Plain (Bool False)\<rparr>"

definition raw_world :: "nat world" where
  "raw_world = snd (safeExec raw_hook world0)"

text \<open>
  Functions to hand to the chain: a consumer that overwrites the object it is given and
  then raises; a handler that recovers with \<open>7\<close>; an effect that returns a promise of
  another value; a transform that doubles a number; the identity.
\<close>

definition unruly_consumer :: "nat consumer" where
  "unruly_consumer r u =
     ((Throw (Plain (Str ''ignored'')), r\<lparr>isOk := \<not> isOk r, error := Plain Null,
                                          value := Plain (Num 0)\<rparr>), Suc u)"

definition recover :: "nat fn" where
  "recover e u = (Return (Plain (Num 7)), Suc u)"


definition double :: "nat fn" where
  "double x u = (case x of Plain (Num n) \<Rightarrow> Return (Plain (Num (2 * n))) | _ \<Rightarrow> Throw x, Suc u)"

definition identity :: "nat fn" where
  "identity x u = (Return x, u)"



definition looks_ok :: val where
  "looks_ok = Plain (Obj [(''isOk'', Bool True), (''value'', Num 1)])"

definition third :: val where
  "third = Thenable Silent (Return looks_ok)"

definition second :: val where
  "second = Thenable Silent (Return third)"

definition first :: val where
  "first = Thenable Silent (Return second)"

section \<open>Lemmas\<close>

subsection \<open>The updater\<close>

lemma fold_Plain: "fold (Return (Plain v)) w = (let (a, w') = ok (Plain v) w in (Immediate a, w'))"
  by (simp add: fold_def)

lemma fold_Fulfilled:
  "fold (Return (Promise (Fulfilled x))) w =
     (let (a, w') = ok (Plain x) w in (Pending (Fulfilled a), w'))"
  by (simp add: fold_def then_results_def Promise_resolve_def split: prod.splits)

lemma fold_Rejected:
  "fold (Return (Promise (Rejected e))) w =
     (let (a, w') = fail e w in (Pending (Fulfilled a), w'))"
  by (simp add: fold_def then_results_def Promise_resolve_def split: prod.splits)

lemma fold_Unsettled: "fold (Return (Promise Unsettled)) w = (Pending Unsettled, w)"
  by (simp add: fold_def then_results_def)

lemma fold_Throw: "fold (Throw e) w = (let (a, w') = fail e w in (Immediate a, w'))"
  by (simp add: fold_def)

lemmas fold_simps = fold_Plain fold_Fulfilled fold_Rejected fold_Unsettled fold_Throw

lemma orderly_cases:
  assumes "orderly out"
  obtains (Plain) v where "out = Return (Plain v)"
    | (Fulfilled) x where "out = Return (Promise (Fulfilled x))"
    | (Rejected) e where "out = Return (Promise (Rejected e))"
    | (Unsettled) "out = Return (Promise Unsettled)"
    | (Throw) e where "out = Throw e"
proof (cases out)
  case (Return v)
  show ?thesis
  proof (cases v)
    case (Plain x)
    with Return show ?thesis by (simp add: that(1))
  next
    case (Promise p)
    with Return show ?thesis
      by (cases p) (simp_all add: that(2) that(3) that(4))
  next
    case (Thenable c e)
    with Return assms show ?thesis by simp
  qed
next
  case (Throw e)
  then show ?thesis by (rule that(5))
qed

lemma update_Immediate:
  "update (Immediate r) cb w =
     (let (out, w1) = cb (Own r) w; (res, w2) = fold out w1 in (Return res, w2))"
  by (simp add: update_def)

lemma update_Pending_Fulfilled:
  assumes "orderly (fst (cb (Own r) w))"
  shows "update (Pending (Fulfilled r)) cb w =
     (let (out, w1) = cb (Own r) w; (res, w2) = fold out w1 in (Return (deferred res), w2))"
proof (cases "cb (Own r) w")
  case (Pair out w1)
  with assms have "orderly out" by simp
  then show ?thesis
    by (cases out rule: orderly_cases)
       (simp_all add: Pair update_def then_results_def fold_simps deferred_def rethrow_def
          split: prod.splits)
qed


lemma update_Pending_Unsettled:
  "update (Pending Unsettled) cb w = (Return (Pending Unsettled), w)"
  by (simp add: update_def then_results_def)

lemma update_Pending_Rejected:
  "update (Pending (Rejected e)) cb w =
     (let (a, w') = fail e w in (Return (Pending (Fulfilled a)), w'))"
  by (simp add: update_def then_results_def rethrow_def split: prod.splits)

lemma update_stays_pending: "\<exists>q w'. update (Pending p) cb w = (Return (Pending q), w')"
  by (simp add: update_def then_results_def split: prod.splits)

lemma update_settled:
  "settled prev = Some a \<Longrightarrow> orderly (fst (cb (Own a) w)) \<Longrightarrow>
   update prev cb w =
     (let (out, w1) = cb (Own a) w; (r, w2) = fold out w1
      in (Return (if pending prev then deferred r else r), w2))"
  by (cases prev rule: settled.cases)
     (simp_all add: update_Immediate update_Pending_Fulfilled split: prod.splits)

subsection \<open>Normalization\<close>

lemma normalizeError_Error: "instanceof_Error e \<Longrightarrow> normalizeError e w = (e, w)"
  by (simp add: normalizeError_def normalize_try_def)

lemma normalizeError_world:
  "normalizeError e w = (e', w') \<Longrightarrow>
     store w' = store w \<and> trace w' = trace w \<and> user w' = user w \<and>
     JSON_stringify w' = JSON_stringify w \<and> fresh w \<le> fresh w'"
  by (auto simp: normalizeError_def normalize_try_def new_Error_def
      split: if_splits val.splits plain.splits serialized.splits)

lemma fail_Error:
  "instanceof_Error e \<Longrightarrow>
   fail e w = alloc \<lparr>isOk = False, error = e, value = Plain Undefined\<rparr> w"
  by (simp add: fail_def normalizeError_Error)

lemma normalizeError_fst_cong:
  "JSON_stringify w1 = JSON_stringify w \<Longrightarrow> fresh w1 = fresh w \<Longrightarrow>
   fst (normalizeError e w1) = fst (normalizeError e w)"
  by (auto simp: normalizeError_def normalize_try_def new_Error_def
      split: if_splits val.splits plain.splits serialized.splits)


subsection \<open>Folding an orderly outcome yields a well-formed result\<close>

lemma ok_result:
  "ok v w = (a, w') \<Longrightarrow>
     a = fresh w \<and> fresh w' = Suc (fresh w) \<and>
     store w' = (store w)(a := \<lparr>isOk = True, error = Plain Undefined, value = v\<rparr>) \<and>
     trace w' = trace w \<and> user w' = user w \<and> JSON_stringify w' = JSON_stringify w"
  by (auto simp: ok_def alloc_def)

lemma fail_result:
  "fail e w = (a, w') \<Longrightarrow>
     fresh w \<le> a \<and> fresh w' = Suc a \<and>
     store w' = (store w)(a := \<lparr>isOk = False, error = fst (normalizeError e w),
                                value = Plain Undefined\<rparr>) \<and>
     trace w' = trace w \<and> user w' = user w \<and> JSON_stringify w' = JSON_stringify w"
  by (cases "normalizeError e w")
     (auto simp: fail_def alloc_def dest: normalizeError_world)

lemma fold_wf: "orderly out \<Longrightarrow> fold out w = (r, w') \<Longrightarrow> wf w' r"
  by (cases out rule: orderly_cases)
     (auto simp: fold_simps wf_result_def split: prod.splits dest!: ok_result fail_result)

lemma wf_deferred: "wf w r \<Longrightarrow> wf w (deferred r)"
  by (cases "(w, r)" rule: wf.cases) (simp_all add: deferred_def)

subsection \<open>Reading a chain\<close>

lemma yield_Own:
  "yield w (Own a) =
     (if isOk (store w a) then Return (value (store w a)) else Throw (error (store w a)))"
  by (simp add: yield_def)

lemma unwrap_settled:
  "settled (result c) = Some a \<Longrightarrow>
   unwrap c w = (if pending (result c) then in_time (yield w (Own a)) else yield w (Own a))"
  by (cases "result c" rule: settled.cases) (simp_all add: unwrap_def in_time_def)

lemma createChain_settled:
  "settled r = Some a \<Longrightarrow>
   createChain r w =
     Return \<lparr>result = r,
             Safe_isOk = (if pending r then Promise (Fulfilled (Bool (isOk (store w a))))
                          else Plain (Bool (isOk (store w a))))\<rparr>"
  by (cases r rule: settled.cases) (simp_all add: createChain_def Promise_resolve_def)

lemma isOk_settled:
  assumes "createChain (result c) w = Return c" and "settled (result c) = Some a"
  shows "Safe_isOk c =
     (if pending (result c) then Promise (Fulfilled (Bool (isOk (store w a))))
      else Plain (Bool (isOk (store w a))))"
proof -
  from assms have "c = \<lparr>result = result c,
      Safe_isOk = (if pending (result c) then Promise (Fulfilled (Bool (isOk (store w a))))
                   else Plain (Bool (isOk (store w a))))\<rparr>"
    by (simp add: createChain_settled)
  then have "Safe_isOk c = Safe_isOk \<lparr>result = result c,
      Safe_isOk = (if pending (result c) then Promise (Fulfilled (Bool (isOk (store w a))))
                   else Plain (Bool (isOk (store w a))))\<rparr>"
    by (rule arg_cong)
  then show ?thesis by simp
qed

lemma createChain_Unsettled:
  "createChain (Pending Unsettled) w =
     Return \<lparr>result = Pending Unsettled, Safe_isOk = Promise Unsettled\<rparr>"
  by (simp add: createChain_def)

lemma createChain_Pending:
  "\<exists>p'. createChain (Pending p) w = Return \<lparr>result = Pending p, Safe_isOk = Promise p'\<rparr>"
  by (simp add: createChain_def)

lemma createChain_result: "createChain r w = Return c \<Longrightarrow> result c = r"
  by (auto simp: createChain_def split: ending.splits)

lemma next_settled:
  "settled (result c) = Some a \<Longrightarrow> orderly (fst (cb (Own a) w)) \<Longrightarrow>
   next c cb w =
     (let (out, w1) = cb (Own a) w; (r, w2) = fold out w1
      in (createChain (if pending (result c) then deferred r else r) w2, w2))"
  by (simp add: next_def update_settled split: prod.splits)

lemma settled_deferred: "settled (deferred r) = settled r"
  by (cases r rule: settled.cases) (simp_all add: deferred_def)

lemma pending_deferred: "wf w r \<Longrightarrow> pending (deferred r)"
  by (cases "(w, r)" rule: wf.cases) (simp_all add: deferred_def)

lemma wf_createChain: "wf w r \<Longrightarrow> \<exists>c. createChain r w = Return c \<and> wf_chain w c"
  by (cases "(w, r)" rule: wf.cases) (simp_all add: createChain_def wf_chain_def)

lemma next_Unsettled:
  "result c = Pending Unsettled \<Longrightarrow>
   next c cb w = (Return \<lparr>result = Pending Unsettled, Safe_isOk = Promise Unsettled\<rparr>, w)"
  by (simp add: next_def update_Pending_Unsettled createChain_Unsettled)

lemma wf_settled_or_Unsettled:
  "wf w r \<Longrightarrow> (\<exists>a. settled r = Some a \<and> wf_result w a) \<or> r = Pending Unsettled"
  by (cases "(w, r)" rule: wf.cases) simp_all

lemma createChain_store_cong:
  "settled r = Some a \<Longrightarrow> store w' a = store w a \<Longrightarrow> createChain r w' = createChain r w"
  by (simp add: createChain_settled)

lemma wf_chain_settled:
  "wf_chain w c \<Longrightarrow> settled (result c) = Some a \<Longrightarrow>
     wf_result w a \<and> createChain (result c) w = Return c"
  by (cases "result c" rule: settled.cases) (simp_all add: wf_chain_def)

lemma fold_after:
  assumes "orderly out" and "fold out w = (r, w')"
  shows "\<exists>c. createChain r w' = Return c \<and> unwrap c w' = normalize_outcome w out \<and>
           Safe_isOk c = outcome_isOk out"
    and "\<exists>c. createChain (deferred r) w' = Return c \<and>
           unwrap c w' = in_time (normalize_outcome w out) \<and>
           Safe_isOk c = in_time_flag (outcome_isOk out)"
    and "trace w' = trace w" and "user w' = user w" and "JSON_stringify w' = JSON_stringify w"
    and "fresh w \<le> fresh w'" and "\<forall>b. b < fresh w \<longrightarrow> store w' b = store w b"
    and "pending r \<longleftrightarrow> (\<exists>p. out = Return (Promise p))"
  using assms
  by (cases out rule: orderly_cases;
      auto simp: fold_simps normalize_outcome_def unwrap_def createChain_def yield_def
        deferred_def in_time_def Promise_resolve_def
      split: prod.splits dest!: ok_result fail_result)+

lemma next_after:
  assumes a: "settled (result c) = Some a" and run: "next c cb w = (r', w')"
    and cb: "cb (Own a) w = (out, w1)" and ord: "orderly out"
  shows "\<exists>c'. r' = Return c' \<and>
      unwrap c' w' = (if pending (result c) then in_time (normalize_outcome w1 out)
                      else normalize_outcome w1 out) \<and>
      Safe_isOk c' = (if pending (result c) then in_time_flag (outcome_isOk out)
                      else outcome_isOk out) \<and>
      (pending (result c') \<longleftrightarrow> pending (result c) \<or> (\<exists>p. out = Return (Promise p))) \<and>
      wf_chain w' c'"
    and "trace w' = trace w1" and "user w' = user w1"
    and "JSON_stringify w' = JSON_stringify w1"
    and "fresh w1 \<le> fresh w'" and "\<forall>b. b < fresh w1 \<longrightarrow> store w' b = store w1 b"
proof -
  from ord cb have o: "orderly (fst (cb (Own a) w))" by simp
  obtain r where f: "fold out w1 = (r, w')"
    and r': "r' = createChain (if pending (result c) then deferred r else r) w'"
    using run by (auto simp: next_settled [of c a cb w, OF a o] cb split: prod.splits)
  note after = fold_after [OF ord f]
  note wfr = fold_wf [OF ord f]
  show "trace w' = trace w1" "user w' = user w1" "JSON_stringify w' = JSON_stringify w1"
    "fresh w1 \<le> fresh w'" "\<forall>b. b < fresh w1 \<longrightarrow> store w' b = store w1 b"
    by (rule after)+
  show "\<exists>c'. r' = Return c' \<and>
      unwrap c' w' = (if pending (result c) then in_time (normalize_outcome w1 out)
                      else normalize_outcome w1 out) \<and>
      Safe_isOk c' = (if pending (result c) then in_time_flag (outcome_isOk out)
                      else outcome_isOk out) \<and>
      (pending (result c') \<longleftrightarrow> pending (result c) \<or> (\<exists>p. out = Return (Promise p))) \<and>
      wf_chain w' c'"
  proof (cases "pending (result c)")
    case True
    from after(2) obtain d where d: "createChain (deferred r) w' = Return d"
      "unwrap d w' = in_time (normalize_outcome w1 out)"
      "Safe_isOk d = in_time_flag (outcome_isOk out)" by blast
    from createChain_result [OF d(1)] have rd: "result d = deferred r" .
    have "wf_chain w' d"
      using wf_deferred [OF wfr] d(1) by (simp add: wf_chain_def rd)
    with True d rd pending_deferred [OF wfr] show ?thesis by (simp add: r')
  next
    case False
    from after(1) obtain d where d: "createChain r w' = Return d"
      "unwrap d w' = normalize_outcome w1 out" "Safe_isOk d = outcome_isOk out" by blast
    from createChain_result [OF d(1)] have rd: "result d = r" .
    have "wf_chain w' d"
      using wfr d(1) by (simp add: wf_chain_def rd)
    with False d rd after(8) show ?thesis by (simp add: r')
  qed
qed

lemma orderly_yield: "wf_result w a \<Longrightarrow> orderly (yield w (Own a))"
  by (cases "value (store w a)") (auto simp: wf_result_def yield_Own split: if_splits)

lemma isOk_yield:
  "wf_result w a \<Longrightarrow> outcome_isOk (yield w (Own a)) = Plain (Bool (isOk (store w a)))"
  by (cases "value (store w a)") (auto simp: wf_result_def yield_Own split: if_splits)

lemma yield_not_promise: "wf_result w a \<Longrightarrow> yield w (Own a) \<noteq> Return (Promise p)"
  by (auto simp: wf_result_def yield_Own split: if_splits)

lemma normalize_yield:
  "wf_result w a \<Longrightarrow> isOk (store w a) \<or> instanceof_Error (error (store w a)) \<Longrightarrow>
   normalize_outcome w1 (yield w (Own a)) = yield w (Own a)"
  by (cases "value (store w a)")
     (auto simp: wf_result_def yield_Own normalize_outcome_def normalizeError_Error
       split: if_splits)

lemma fold_yield:
  assumes "wf_result w a"
  shows "\<exists>w' a'. fold (yield w (Own a)) w2 = (Immediate a', w') \<and> fresh w2 \<le> a' \<and>
           isOk (store w' a') = isOk (store w a) \<and>
           value (store w' a') = value (store w a) \<and>
           error (store w' a') =
             (if isOk (store w a) then error (store w a)
              else fst (normalizeError (error (store w a)) w2))"
proof (cases "isOk (store w a)")
  case True
  with assms obtain v where v: "value (store w a) = Plain v" "error (store w a) = Plain Undefined"
    by (cases "value (store w a)") (auto simp: wf_result_def)
  show ?thesis
    by (simp add: yield_Own fold_simps ok_def alloc_def True v)
next
  case False
  obtain a' w' where f: "fail (error (store w a)) w2 = (a', w')" by (rule prod.exhaust)
  from fail_result [OF f] False assms show ?thesis
    by (simp add: yield_Own fold_simps f wf_result_def)
qed

text \<open>A callback that hands back what it read from the previous result.\<close>

lemma passthrough:
  assumes wf: "wf_chain w c" and a: "settled (result c) = Some a"
    and run: "next c cb w = (r', w')"
    and cb: "cb (Own a) w = (yield w (Own a), w1)"
  shows "\<exists>c' a'. r' = Return c' \<and> settled (result c') = Some a' \<and> fresh w1 \<le> a' \<and>
      pending (result c') = pending (result c) \<and> wf_chain w' c' \<and>
      Safe_isOk c' = Safe_isOk c \<and>
      isOk (store w' a') = isOk (store w a) \<and>
      value (store w' a') = value (store w a) \<and>
      error (store w' a') =
        (if isOk (store w a) then error (store w a)
         else fst (normalizeError (error (store w a)) w1)) \<and>
      (isOk (store w a) \<or> instanceof_Error (error (store w a)) \<longrightarrow>
         unwrap c' w' = unwrap c w)"
    and "trace w' = trace w1" and "user w' = user w1"
    and "\<forall>b. b < fresh w1 \<longrightarrow> store w' b = store w1 b"
proof -
  from wf_chain_settled [OF wf a]
  have wfa: "wf_result w a" and c: "createChain (result c) w = Return c" by simp_all
  note ord = orderly_yield [OF wfa]
  note n = next_after [OF a run cb ord]
  show "trace w' = trace w1" "user w' = user w1"
    "\<forall>b. b < fresh w1 \<longrightarrow> store w' b = store w1 b"
    by (rule n)+
  from n(1) obtain c' where c': "r' = Return c'"
    and u: "unwrap c' w' = (if pending (result c)
              then in_time (normalize_outcome w1 (yield w (Own a)))
              else normalize_outcome w1 (yield w (Own a)))"
    and i: "Safe_isOk c' = (if pending (result c)
              then in_time_flag (outcome_isOk (yield w (Own a)))
              else outcome_isOk (yield w (Own a)))"
    and p: "pending (result c') \<longleftrightarrow>
              pending (result c) \<or> (\<exists>p. yield w (Own a) = Return (Promise p))"
    and wf': "wf_chain w' c'" by blast
  from fold_yield [OF wfa, of w1]
  obtain w'' a' where f: "fold (yield w (Own a)) w1 = (Immediate a', w'')"
    and a': "fresh w1 \<le> a'" "isOk (store w'' a') = isOk (store w a)"
      "value (store w'' a') = value (store w a)"
      "error (store w'' a') =
         (if isOk (store w a) then error (store w a)
          else fst (normalizeError (error (store w a)) w1))" by blast
  from ord cb have o: "orderly (fst (cb (Own a) w))" by simp
  from run c' have "w' = w''"
    and "createChain (if pending (result c) then deferred (Immediate a') else Immediate a') w'' =
           Return c'"
    by (auto simp: next_settled [of c a cb w, OF a o] cb f)
  then have w': "w' = w''"
    and rc': "result c' = (if pending (result c) then deferred (Immediate a') else Immediate a')"
    by (auto dest: createChain_result)
  have s: "settled (result c') = Some a'"
    by (simp add: rc' deferred_def)
  have pe: "pending (result c') = pending (result c)"
    by (simp add: p yield_not_promise [OF wfa])
  have fl: "Safe_isOk c' = Safe_isOk c"
  proof -
    from isOk_settled [OF c a]
    show ?thesis by (simp add: i isOk_yield [OF wfa])
  qed
  have un: "unwrap c' w' = unwrap c w"
    if "isOk (store w a) \<or> instanceof_Error (error (store w a))"
    by (simp add: u normalize_yield [OF wfa that] unwrap_settled [OF a])
  from c' s a' pe wf' fl un
  show "\<exists>c' a'. r' = Return c' \<and> settled (result c') = Some a' \<and> fresh w1 \<le> a' \<and>
      pending (result c') = pending (result c) \<and> wf_chain w' c' \<and>
      Safe_isOk c' = Safe_isOk c \<and>
      isOk (store w' a') = isOk (store w a) \<and>
      value (store w' a') = value (store w a) \<and>
      error (store w' a') =
        (if isOk (store w a) then error (store w a)
         else fst (normalizeError (error (store w a)) w1)) \<and>
      (isOk (store w a) \<or> instanceof_Error (error (store w a)) \<longrightarrow>
         unwrap c' w' = unwrap c w)"
    unfolding w' by blast
qed

subsection \<open>The callbacks of the methods on a result object\<close>

lemma reading_Return [simp]: "reading (Return v) w rest = rest v"
  by (simp add: reading_def)

lemma watch_callback_Own:
  assumes "a < fresh w"
  shows "\<exists>w2. watch_callback consumer (Own a) w = (yield w (Own a), w2) \<and>
          trace w2 = trace w @ [Observed (store w a)] \<and>
          user w2 = snd (consumer (store w a) (user w)) \<and>
          fresh w2 = Suc (fresh w) \<and> JSON_stringify w2 = JSON_stringify w \<and>
          store w2 = (store w)(fresh w := snd (fst (consumer (store w a) (user w))))"
  using assms
  by (cases "consumer (store w a) (user w)")
     (auto simp: watch_callback_def spread_def alloc_def observe_def yield_Own Let_def)

lemma map_callback_failed:
  "\<not> isOk (store w a) \<Longrightarrow> map_callback transform (Own a) w = (yield w (Own a), w)"
  by (simp add: map_callback_def yield_Own)









subsection \<open>Pending chains\<close>

lemma next_pending:
  assumes "pending (result c)" and "next c cb w = (r', w')"
  shows "\<exists>c' p. r' = Return c' \<and> pending (result c') \<and> Safe_isOk c' = Promise p"
proof -
  from assms(1) obtain p where p: "result c = Pending p"
    by (cases "result c" rule: pending.cases) simp_all
  from update_stays_pending [of p cb w]
  obtain q w1 where u: "update (Pending p) cb w = (Return (Pending q), w1)" by blast
  from createChain_Pending [of q w1]
  obtain p' where c: "createChain (Pending q) w1 =
      Return \<lparr>result = Pending q, Safe_isOk = Promise p'\<rparr>" by blast
  from assms(2) have "r' = Return \<lparr>result = Pending q, Safe_isOk = Promise p'\<rparr>"
    by (simp add: next_def p u c)
  then show ?thesis by simp
qed

lemma unwrap_pending: "pending (result c) \<Longrightarrow> \<exists>p. unwrap c w = Return (Promise p)"
  by (cases "result c" rule: pending.cases) (simp_all add: unwrap_def)

lemma orElse_pending:
  assumes "pending (result c)"
  shows "\<exists>p. fst (orElse fallback c w) = Return (Promise p)"
proof -
  obtain r' w' where run: "next c (orElse_callback fallback) w = (r', w')"
    by (rule prod.exhaust)
  from next_pending [OF assms run]
  obtain c' where c': "r' = Return c'" "pending (result c')" by blast
  from unwrap_pending [OF c'(2), of w'] run c'(1) show ?thesis
    by (simp add: orElse_def)
qed

lemma apply_step_pending:
  assumes "pending (result c)" and "apply_step s c w = (r', w')"
  shows "\<exists>c' p. r' = Return c' \<and> pending (result c') \<and> Safe_isOk c' = Promise p"
  using assms
  by (cases s)
     (auto simp: map_chain_def effect_def ifOk_def watch_def catch_def ifFail_def
        dest: next_pending)

subsection \<open>Sequences of operations\<close>

lemma stays_pending:
  assumes "pending (result c)"
  shows "length (chain_sequence steps c w) = length steps \<and>
         (\<forall>(r, w') \<in> set (chain_sequence steps c w).
            \<exists>c'. r = Return c' \<and> pending (result c') \<and> (\<exists>p. Safe_isOk c' = Promise p) \<and>
              (\<exists>p. unwrap c' w' = Return (Promise p)) \<and>
              (\<forall>fallback. \<exists>p. fst (orElse fallback c' w') = Return (Promise p)))"
  using assms
proof (induction steps arbitrary: c w)
  case Nil
  then show ?case by simp
next
  case (Cons s steps)
  obtain r1 w1 where s: "apply_step s c w = (r1, w1)" by (rule prod.exhaust)
  from apply_step_pending [OF Cons.prems s]
  obtain c1 where r1: "r1 = Return c1" and p1: "pending (result c1)"
    and i1: "\<exists>p. Safe_isOk c1 = Promise p" by blast
  have o1: "\<forall>fallback. \<exists>p. fst (orElse fallback c1 w1) = Return (Promise p)"
    using orElse_pending [OF p1] by blast
  from Cons.IH [OF p1, of w1] unwrap_pending [OF p1, of w1] o1 p1 i1 s r1
  show ?case by simp
qed

lemma chain_sequence_drop:
  "i < length (chain_sequence steps c w) \<Longrightarrow> chain_sequence steps c w ! i = (Return ci, wi) \<Longrightarrow>
   drop (Suc i) (chain_sequence steps c w) = chain_sequence (drop (Suc i) steps) ci wi"
proof (induction steps arbitrary: c w i)
  case Nil
  then show ?case by simp
next
  case (Cons s steps)
  obtain r1 w1 where s: "apply_step s c w = (r1, w1)" by (rule prod.exhaust)
  show ?case
  proof (cases r1)
    case (Return c1)
    show ?thesis
    proof (cases i)
      case 0
      with s Return Cons.prems show ?thesis by simp
    next
      case (Suc k)
      with Cons.prems s Return have "k < length (chain_sequence steps c1 w1)"
        and "chain_sequence steps c1 w1 ! k = (Return ci, wi)" by simp_all
      from Cons.IH [OF this] s Return Suc show ?thesis by simp
    qed
  next
    case (Throw e)
    with s Cons.prems show ?thesis by simp
  qed
qed

subsection \<open>Construction and well-formedness\<close>





lemma next_wf:
  assumes wf: "wf_chain w c" and run: "next c cb w = (r, w')"
    and ord: "\<forall>a. settled (result c) = Some a \<longrightarrow> orderly (fst (cb (Own a) w))"
  shows "\<exists>c'. r = Return c' \<and> wf_chain w' c'"
proof -
  from wf have wfr: "wf w (result c)" by (simp add: wf_chain_def)
  from wf_settled_or_Unsettled [OF wfr] show ?thesis
  proof
    assume "\<exists>a. settled (result c) = Some a \<and> wf_result w a"
    then obtain a where a: "settled (result c) = Some a" by blast
    obtain out w1 where cb: "cb (Own a) w = (out, w1)" by (rule prod.exhaust)
    with ord a have o: "orderly out" by auto
    from next_after(1) [OF a run cb o] show ?thesis by blast
  next
    assume "result c = Pending Unsettled"
    with run show ?thesis
      by (auto simp: next_Unsettled wf_chain_def createChain_Unsettled)
  qed
qed

lemma wf_chain_stable:
  assumes "wf_chain w c" and "fresh w \<le> fresh w'"
    and "\<forall>b. b < fresh w \<longrightarrow> store w' b = store w b"
  shows "wf_chain w' c"
  using assms
  by (cases "(w, result c)" rule: wf.cases)
     (auto simp: wf_chain_def wf_result_def createChain_def)

section \<open>Properties of the chain engine\<close>

text \<open>
  In what follows \<open>w\<close> is the world before an operation and \<open>w'\<close> the world after it. An
  operation yields \<open>Return c'\<close> when it returns the chain \<open>c'\<close> and \<open>Throw e\<close> when it
  raises \<open>e\<close>. \<open>settled (result c) = Some a\<close> says that the chain \<open>c\<close> holds the result
  object \<open>a\<close>, directly or through a promise of the host that resolves to it.
  \<open>wf_chain w c\<close> says that \<open>c\<close> was built on a result object of the shape \<open>ok\<close> and
  \<open>fail\<close> give, or on a promise of the host of one, or on a promise of the host that never
  settles. The construction helpers build such chains and the methods preserve them, as
  long as no function handed to them returns an object with a hand-written \<open>then\<close>
  (\<open>safeExec_fold\<close>, \<open>safeValue_fold\<close>, \<open>next_wf\<close>). Nothing is assumed of the error of a
  failure: \<open>normalizeError\<close> makes it an \<open>Error\<close> instance unless the serializer raised
  something else.
\<close>

subsection \<open>C1: construction from a value\<close>




subsection \<open>C2: the updater\<close>




subsection \<open>C3: watch is isolated\<close>




subsection \<open>C4: error normalization\<close>

text \<open>
  C4. \<open>normalizeError\<close> returns a value for every input: what its \<open>try\<close> block raises, its
  \<open>catch\<close> clause returns. An \<open>Error\<close> instance is returned as it is (the same object,
  nothing allocated); a string becomes a new \<open>Error\<close> with that message; any other value
  becomes a new \<open>Error\<close> whose message is the text the serializer gives (empty when it
  gives none). When the serializer raises, the value returned is the one the serializer
  raised, not the value that was being normalized; the result is an \<open>Error\<close> instance
  whenever what the serializer raises is one.
\<close>

theorem normalizeError_coerces:
  "(instanceof_Error e \<longrightarrow> normalizeError e w = (e, w)) \<and>
   (\<forall>s. e = Plain (Str s) \<longrightarrow> normalizeError e w = new_Error s w) \<and>
   (\<not> instanceof_Error e \<and> (\<forall>s. e \<noteq> Plain (Str s)) \<longrightarrow>
      (case JSON_stringify w e of
         Text s \<Rightarrow> normalizeError e w = new_Error s w
       | NoText \<Rightarrow> normalizeError e w = new_Error [] w
       | Raises x \<Rightarrow> normalize_try e w = (Throw x, w) \<and> normalizeError e w = (x, w))) \<and>
   (\<forall>caught w'. normalize_try e w = (Throw caught, w') \<longrightarrow>
      normalizeError e w = (caught, w')) \<and>
   ((\<forall>x. JSON_stringify w e = Raises x \<longrightarrow> instanceof_Error x) \<longrightarrow>
      instanceof_Error (fst (normalizeError e w)))"
  (is "?error \<and> ?string \<and> ?other \<and> ?caught \<and> ?structured")
proof -
  have error: ?error
    by (simp add: normalizeError_Error)
  have string: ?string
    by (simp add: normalizeError_def normalize_try_def split: prod.splits)
  have other: ?other
    by (auto simp: normalizeError_def normalize_try_def new_Error_def
        split: val.splits plain.splits serialized.splits)
  have caught: ?caught
    by (simp add: normalizeError_def)
  have structured: ?structured
    by (auto simp: normalizeError_def normalize_try_def new_Error_def
        split: val.splits plain.splits serialized.splits)
  from error string other caught structured show ?thesis by (simp only: simp_thms)
qed

theorem normalizeError_coerces_witness:
  "instanceof_Error (Plain (Err 5 ''e'')) \<and>
   normalizeError (Plain (Err 5 ''e'')) world0 = (Plain (Err 5 ''e''), world0) \<and>
   fst (normalizeError (Plain (Str ''str-error'')) world0) = Plain (Err 0 ''str-error'') \<and>
   \<not> instanceof_Error (Plain (Num 3)) \<and> JSON_stringify world0 (Plain (Num 3)) = Text ''3'' \<and>
   fst (normalizeError (Plain (Num 3)) world0) = Plain (Err 0 ''3'') \<and>
   JSON_stringify world0 (Plain (Hook (Str ''raw''))) = Raises (Plain (Str ''raw'')) \<and>
   fst (normalizeError (Plain (Hook (Str ''raw''))) world0) = Plain (Str ''raw'')"
proof -
  have a: "instanceof_Error (Plain (Err 5 ''e''))" by simp
  have b: "\<not> instanceof_Error (Plain (Num 3))" "\<forall>s. Plain (Num 3) \<noteq> Plain (Str s)"
    by simp_all
  have t: "JSON_stringify world0 (Plain (Num 3)) = Text ''3''"
    by code_simp
  have h: "\<not> instanceof_Error (Plain (Hook (Str ''raw'')))"
    "\<forall>s. Plain (Hook (Str ''raw'')) \<noteq> Plain (Str s)"
    "JSON_stringify world0 (Plain (Hook (Str ''raw''))) = Raises (Plain (Str ''raw''))"
    by (simp_all add: world0_def)
  from normalizeError_coerces [of "Plain (Err 5 ''e'')" world0] a
  have 1: "normalizeError (Plain (Err 5 ''e'')) world0 = (Plain (Err 5 ''e''), world0)"
    by blast
  from normalizeError_coerces [of "Plain (Str ''str-error'')" world0]
  have 2: "normalizeError (Plain (Str ''str-error'')) world0 = new_Error ''str-error'' world0"
    by blast
  from normalizeError_coerces [of "Plain (Num 3)" world0] b t
  have 3: "normalizeError (Plain (Num 3)) world0 = new_Error ''3'' world0"
    by simp
  from normalizeError_coerces [of "Plain (Hook (Str ''raw''))" world0] h
  have 4: "normalizeError (Plain (Hook (Str ''raw''))) world0 = (Plain (Str ''raw''), world0)"
    by simp
  from a b t h 1 2 3 4 show ?thesis
    by (simp add: new_Error_def world0_def)
qed

theorem normalizeError_fallback_counterexample:
  "JSON_stringify world0 (Plain (BigInt 1)) =
     Raises (Plain (TypeError ''Do not know how to serialize a BigInt'')) \<and>
   fst (normalizeError (Plain (BigInt 1)) world0) =
     Plain (TypeError ''Do not know how to serialize a BigInt'') \<and>
   fst (normalizeError (Plain (BigInt 1)) world0) \<noteq> Plain (BigInt 1)"
  by code_simp

subsection \<open>C5: recovery\<close>




subsection \<open>C6: effects are transparent\<close>




subsection \<open>C7: what surfaces a failure\<close>




subsection \<open>C8: map short-circuits on failure\<close>

text \<open>
  C8. On a failing chain \<open>map(f)\<close> does not invoke \<open>f\<close> (the trace and the caller's state
  are unchanged, whatever \<open>f\<close> is) and returns a chain that is a failure, pending if the old
  one was. Its error is what \<open>normalizeError\<close> makes of the old chain's error: when that
  is an \<open>Error\<close> instance, it is the same error object, and \<open>unwrap()\<close> is unchanged.
\<close>

theorem map_short_circuit:
  assumes a: "settled (result c) = Some a"
    and failed: "\<not> isOk (store w a)" and run: "map_chain f c w = (r, w')"
  shows "trace w' = trace w \<and> user w' = user w \<and>
         (\<exists>c' a'. r = Return c' \<and> settled (result c') = Some a' \<and>
            pending (result c') = pending (result c) \<and>
            \<not> isOk (store w' a') \<and>
            error (store w' a') = fst (normalizeError (error (store w a)) w) \<and>
            (instanceof_Error (error (store w a)) \<longrightarrow>
               error (store w' a') = error (store w a) \<and> unwrap c' w' = unwrap c w))"
proof -
  have cb: "map_callback f (Own a) w = (Throw (error (store w a)), w)"
    using failed by (simp add: map_callback_failed yield_Own)
  then have o: "orderly (fst (map_callback f (Own a) w))" by simp
  obtain a' w2 where f: "fail (error (store w a)) w = (a', w2)" by (rule prod.exhaust)
  note fr = fail_result [OF f]
  from run have w': "w' = w2"
    and r: "r = createChain (if pending (result c) then deferred (Immediate a') else Immediate a') w2"
    by (auto simp: map_chain_def next_settled [of c a "map_callback f" w, OF a o] cb
        fold_simps f)
  define res where "res = (if pending (result c) then deferred (Immediate a') else Immediate a')"
  have s: "settled res = Some a'" and p: "pending res = pending (result c)"
    by (simp_all add: res_def deferred_def)
  from createChain_settled [OF s, of w2] obtain c' where c': "createChain res w2 = Return c'"
    and rc': "result c' = res" by simp
  have st: "\<not> isOk (store w2 a')"
    "error (store w2 a') = fst (normalizeError (error (store w a)) w)"
    using fr by simp_all
  have same: "error (store w2 a') = error (store w a) \<and> unwrap c' w2 = unwrap c w"
    if "instanceof_Error (error (store w a))"
    using that st failed p
    by (simp add: unwrap_settled [OF a] unwrap_settled [of c' a' w2] rc' s yield_Own
        normalizeError_Error)
  from fr have "trace w2 = trace w" "user w2 = user w" by simp_all
  moreover from c' rc' s p st same
  have "\<exists>c' a'. r = Return c' \<and> settled (result c') = Some a' \<and>
            pending (result c') = pending (result c) \<and>
            \<not> isOk (store w2 a') \<and>
            error (store w2 a') = fst (normalizeError (error (store w a)) w) \<and>
            (instanceof_Error (error (store w a)) \<longrightarrow>
               error (store w2 a') = error (store w a) \<and> unwrap c' w2 = unwrap c w)"
    unfolding r res_def [symmetric] by auto
  ultimately show ?thesis unfolding w' by simp
qed

theorem map_short_circuit_witness:
  "settled (result failed_chain) = Some 2 \<and> \<not> isOk (store failed_world 2) \<and>
   instanceof_Error (error (store failed_world 2)) \<and>
   trace (snd (map_chain double failed_chain failed_world)) = trace failed_world \<and>
   user (snd (map_chain double failed_chain failed_world)) = user failed_world \<and>
   fst (map_chain double failed_chain failed_world) =
     Return \<lparr>result = Immediate 3, Safe_isOk = Plain (Bool False)\<rparr> \<and>
   error (store (snd (map_chain double failed_chain failed_world)) 3) =
     error (store failed_world 2) \<and>
   unwrap \<lparr>result = Immediate 3, Safe_isOk = Plain (Bool False)\<rparr>
     (snd (map_chain double failed_chain failed_world)) = Throw (Plain (Err 1 ''boom''))"
proof -
  have a: "settled (result failed_chain) = Some 2" by code_simp
  have e: "\<not> isOk (store failed_world 2)" "instanceof_Error (error (store failed_world 2))"
    by code_simp+
  define r where "r = fst (map_chain double failed_chain failed_world)"
  define w' where "w' = snd (map_chain double failed_chain failed_world)"
  have run: "map_chain double failed_chain failed_world = (r, w')"
    by (simp add: r_def w'_def)
  have u: "unwrap failed_chain failed_world = Throw (Plain (Err 1 ''boom''))" by code_simp
  have r: "r = Return \<lparr>result = Immediate 3, Safe_isOk = Plain (Bool False)\<rparr>"
    unfolding r_def by code_simp
  from map_short_circuit [OF a e(1) run] e(2)
  obtain c' a' where t: "trace w' = trace failed_world" "user w' = user failed_world"
    and c': "r = Return c'" "settled (result c') = Some a'"
      "error (store w' a') = error (store failed_world 2)"
      "unwrap c' w' = unwrap failed_chain failed_world"
    by blast
  from c'(1) c'(2) r have "a' = 3" by auto
  with t c' r a e u show ?thesis
    by (simp add: r_def [symmetric] w'_def [symmetric])
qed

theorem map_renormalizes_counterexample:
  "fst (safeExec raw_hook world0) = Return raw_chain \<and>
   settled (result raw_chain) = Some 1 \<and> \<not> isOk (store raw_world 1) \<and>
   error (store raw_world 1) = Plain (Str ''raw'') \<and>
   (case map_chain double raw_chain raw_world of
      (Return c', w') \<Rightarrow>
        result c' = Immediate 3 \<and> error (store w' 3) = Plain (Err 2 ''raw'') \<and>
        error (store w' 3) \<noteq> error (store raw_world 1)
    | (Throw e, w') \<Rightarrow> False)"
  by code_simp

subsection \<open>C9: a promise of the host is permanent\<close>

text \<open>
  C9. In a sequence of \<open>map\<close>, \<open>effect\<close>, \<open>ifOk\<close>, \<open>watch\<close>, \<open>catch\<close> and \<open>ifFail\<close>, once
  the result of the initial chain or of the chain some step produced is a promise of the
  host, every later step returns a chain, whatever the functions handed to it do, and
  every later chain is pending in the same way: its \<open>isOk\<close> is a promise of the host, and
  \<open>unwrap()\<close> and \<open>orElse\<close> return one. Nothing is stated for a chain whose result is
  promise-like only by a hand-written \<open>then\<close>.
\<close>

theorem pending_monotonic:
  "(pending (result c) \<longrightarrow>
      length (chain_sequence steps c w) = length steps \<and>
      (\<forall>(r, w') \<in> set (chain_sequence steps c w).
         \<exists>c'. r = Return c' \<and> pending (result c') \<and> (\<exists>p. Safe_isOk c' = Promise p) \<and>
           (\<exists>p. unwrap c' w' = Return (Promise p)) \<and>
           (\<forall>fallback. \<exists>p. fst (orElse fallback c' w') = Return (Promise p)))) \<and>
   (\<forall>i j ci wi. i < j \<and> j < length steps \<and> i < length (chain_sequence steps c w) \<and>
          chain_sequence steps c w ! i = (Return ci, wi) \<and> pending (result ci) \<longrightarrow>
      j < length (chain_sequence steps c w) \<and>
      (case chain_sequence steps c w ! j of
         (r, w') \<Rightarrow>
           \<exists>c'. r = Return c' \<and> pending (result c') \<and> (\<exists>p. Safe_isOk c' = Promise p) \<and>
             (\<exists>p. unwrap c' w' = Return (Promise p)) \<and>
             (\<forall>fallback. \<exists>p. fst (orElse fallback c' w') = Return (Promise p))))"
  (is "?start \<and> ?later")
proof -
  have start: ?start
    using stays_pending [of c steps w] by blast
  have later: ?later
  proof (intro allI impI)
    fix i j ci wi
    assume h: "i < j \<and> j < length steps \<and> i < length (chain_sequence steps c w) \<and>
          chain_sequence steps c w ! i = (Return ci, wi) \<and> pending (result ci)"
    define cs where "cs = chain_sequence steps c w"
    from h have i: "i < length cs" and ci: "cs ! i = (Return ci, wi)"
      and p: "pending (result ci)" and ij: "i < j" "j < length steps"
      by (simp_all add: cs_def)
    have d: "drop (Suc i) cs = chain_sequence (drop (Suc i) steps) ci wi"
      unfolding cs_def by (rule chain_sequence_drop) (use i ci in \<open>simp_all add: cs_def\<close>)
    note sp = stays_pending [OF p, of "drop (Suc i) steps" wi]
    from sp have len: "length (drop (Suc i) cs) = length steps - Suc i"
      by (simp add: d)
    with ij have j: "j < length cs" by simp
    with ij len have "j - Suc i < length (drop (Suc i) cs)" by simp
    then have "drop (Suc i) cs ! (j - Suc i) \<in> set (drop (Suc i) cs)"
      by (rule nth_mem)
    moreover from ij j have "drop (Suc i) cs ! (j - Suc i) = cs ! j"
      by simp
    ultimately have m: "cs ! j \<in> set (chain_sequence (drop (Suc i) steps) ci wi)"
      by (simp add: d)
    from sp have "\<forall>(r, w') \<in> set (chain_sequence (drop (Suc i) steps) ci wi).
        \<exists>c'. r = Return c' \<and> pending (result c') \<and> (\<exists>p. Safe_isOk c' = Promise p) \<and>
          (\<exists>p. unwrap c' w' = Return (Promise p)) \<and>
          (\<forall>fallback. \<exists>p. fst (orElse fallback c' w') = Return (Promise p))"
      by (rule conjunct2)
    then have "case cs ! j of
         (r, w') \<Rightarrow>
           \<exists>c'. r = Return c' \<and> pending (result c') \<and> (\<exists>p. Safe_isOk c' = Promise p) \<and>
             (\<exists>p. unwrap c' w' = Return (Promise p)) \<and>
             (\<forall>fallback. \<exists>p. fst (orElse fallback c' w') = Return (Promise p))"
      using m by (rule bspec)
    with j show "j < length (chain_sequence steps c w) \<and>
      (case chain_sequence steps c w ! j of
         (r, w') \<Rightarrow>
           \<exists>c'. r = Return c' \<and> pending (result c') \<and> (\<exists>p. Safe_isOk c' = Promise p) \<and>
             (\<exists>p. unwrap c' w' = Return (Promise p)) \<and>
             (\<forall>fallback. \<exists>p. fst (orElse fallback c' w') = Return (Promise p)))"
      unfolding cs_def by (rule conjI)
  qed
  from start later show ?thesis by (rule conjI)
qed

theorem pending_monotonic_witness:
  "pending (result pending_chain) \<and>
   length (chain_sequence [Map double, Watch unruly_consumer, Catch recover]
             pending_chain pending_world) = 3 \<and>
   (\<exists>c' p. fst (chain_sequence [Map double, Watch unruly_consumer, Catch recover]
                  pending_chain pending_world ! 2) = Return c' \<and>
          pending (result c') \<and> Safe_isOk c' = Promise p)"
proof -
  define cs where
    "cs = chain_sequence [Map double, Watch unruly_consumer, Catch recover]
            pending_chain pending_world"
  have p: "pending (result pending_chain)" by code_simp
  from pending_monotonic [of pending_chain "[Map double, Watch unruly_consumer, Catch recover]"
      pending_world, folded cs_def, THEN conjunct1, rule_format, OF p]
  have l: "length cs = 3"
    and all: "\<forall>(r, w') \<in> set cs.
          \<exists>c'. r = Return c' \<and> pending (result c') \<and> (\<exists>p. Safe_isOk c' = Promise p) \<and>
          (\<exists>p. unwrap c' w' = Return (Promise p)) \<and>
          (\<forall>fallback. \<exists>p. fst (orElse fallback c' w') = Return (Promise p))"
    by simp_all
  from l have m: "cs ! 2 \<in> set cs" by simp
  from all have "case cs ! 2 of (r, w') \<Rightarrow>
          \<exists>c'. r = Return c' \<and> pending (result c') \<and> (\<exists>p. Safe_isOk c' = Promise p) \<and>
          (\<exists>p. unwrap c' w' = Return (Promise p)) \<and>
          (\<forall>fallback. \<exists>p. fst (orElse fallback c' w') = Return (Promise p))"
    using m by (rule bspec)
  then have "\<exists>c' p. fst (cs ! 2) = Return c' \<and> pending (result c') \<and> Safe_isOk c' = Promise p"
    by (cases "cs ! 2") auto
  with p l show ?thesis
    unfolding cs_def by blast
qed

theorem pending_thenable_counterexample:
  "(case map_chain (\<lambda>x u. (Return first, u)) chain42 world42 of
      (Return c1, w1) \<Rightarrow>
        result c1 = Stray second \<and> isPromiseLike second \<and> isPromiseLike (Safe_isOk c1) \<and>
        (case map_chain identity c1 w1 of
           (Return c2, w2) \<Rightarrow>
             result c2 = Stray looks_ok \<and> \<not> isPromiseLike looks_ok \<and>
             Safe_isOk c2 = Plain (Bool True) \<and> unwrap c2 w2 = Return (Plain (Num 1))
         | (Throw e, w2) \<Rightarrow> False)
    | (Throw e, w1) \<Rightarrow> False)"
  by code_simp

subsection \<open>C10: the watch snapshot is a copy\<close>

text \<open>
  C10. The object handed to a watch consumer is a new object, at an address different
  from the chain's result object. Whatever fields the consumer leaves in it, the chain's
  own result object is unchanged, and \<open>watch\<close> returns a chain whose result object has the
  \<open>isOk\<close> and the value the old one had, and its error normalized again: when the chain has
  succeeded or its error is an \<open>Error\<close> instance, the new result object has the fields of
  the old one and \<open>unwrap()\<close> is unchanged.
\<close>

theorem watch_snapshot_is_a_copy:
  assumes wf: "wf_chain w c" and a: "settled (result c) = Some a"
    and run: "watch consumer c w = (r, w')"
  shows "fresh w \<noteq> a \<and>
         store w' (fresh w) = snd (fst (consumer (store w a) (user w))) \<and>
         store w' a = store w a \<and>
         (\<exists>c' a'. r = Return c' \<and> settled (result c') = Some a' \<and>
            isOk (store w' a') = isOk (store w a) \<and>
            value (store w' a') = value (store w a) \<and>
            error (store w' a') =
              (if isOk (store w a) then error (store w a)
               else fst (normalizeError (error (store w a)) (w\<lparr>fresh := Suc (fresh w)\<rparr>))) \<and>
            (isOk (store w a) \<or> instanceof_Error (error (store w a)) \<longrightarrow>
               store w' a' = store w a \<and> unwrap c' w' = unwrap c w))"
proof -
  from wf_chain_settled [OF wf a] have lt: "a < fresh w" by (simp add: wf_result_def)
  from watch_callback_Own [OF lt, of consumer]
  obtain w2 where cb: "watch_callback consumer (Own a) w = (yield w (Own a), w2)"
    and fr: "fresh w2 = Suc (fresh w)" and js: "JSON_stringify w2 = JSON_stringify w"
    and st: "store w2 = (store w)(fresh w := snd (fst (consumer (store w a) (user w))))"
    by blast
  note p = passthrough [OF wf a run [unfolded watch_def] cb]
  from p(4) have keep: "\<forall>b. b < fresh w2 \<longrightarrow> store w' b = store w2 b" .
  have ne: "fst (normalizeError (error (store w a)) w2) =
      fst (normalizeError (error (store w a)) (w\<lparr>fresh := Suc (fresh w)\<rparr>))"
    by (rule normalizeError_fst_cong) (simp_all add: fr js)
  have 1: "store w' (fresh w) = snd (fst (consumer (store w a) (user w)))"
    using keep by (simp add: fr st)
  have 2: "store w' a = store w a"
    using keep lt by (simp add: fr st)
  from p(1) obtain c' a' where c': "r = Return c'" "settled (result c') = Some a'"
    and f: "isOk (store w' a') = isOk (store w a)" "value (store w' a') = value (store w a)"
      "error (store w' a') =
        (if isOk (store w a) then error (store w a)
         else fst (normalizeError (error (store w a)) w2))"
    and u: "isOk (store w a) \<or> instanceof_Error (error (store w a)) \<longrightarrow>
         unwrap c' w' = unwrap c w"
    by blast
  have eq: "store w' a' = store w a"
    if "isOk (store w a) \<or> instanceof_Error (error (store w a))"
  proof (rule SafeResult.equality)
    show "isOk (store w' a') = isOk (store w a)" by (rule f)
    show "value (store w' a') = value (store w a)" by (rule f)
    from that show "error (store w' a') = error (store w a)"
      by (auto simp: f(3) normalizeError_Error)
  qed simp
  from c' f u eq have "\<exists>c' a'. r = Return c' \<and> settled (result c') = Some a' \<and>
            isOk (store w' a') = isOk (store w a) \<and>
            value (store w' a') = value (store w a) \<and>
            error (store w' a') =
              (if isOk (store w a) then error (store w a)
               else fst (normalizeError (error (store w a)) (w\<lparr>fresh := Suc (fresh w)\<rparr>))) \<and>
            (isOk (store w a) \<or> instanceof_Error (error (store w a)) \<longrightarrow>
               store w' a' = store w a \<and> unwrap c' w' = unwrap c w)"
    unfolding ne by blast
  with 1 2 lt show ?thesis by simp
qed

theorem watch_snapshot_is_a_copy_witness:
  "wf_chain world42 chain42 \<and> settled (result chain42) = Some 1 \<and>
   store world42 1 = \<lparr>isOk = True, error = Plain Undefined, value = Plain (Num 42)\<rparr> \<and>
   store (snd (watch unruly_consumer chain42 world42)) 1 =
     \<lparr>isOk = True, error = Plain Undefined, value = Plain (Num 42)\<rparr> \<and>
   store (snd (watch unruly_consumer chain42 world42)) 2 =
     \<lparr>isOk = False, error = Plain Null, value = Plain (Num 0)\<rparr> \<and>
   fst (watch unruly_consumer chain42 world42) =
     Return \<lparr>result = Immediate 3, Safe_isOk = Plain (Bool True)\<rparr> \<and>
   store (snd (watch unruly_consumer chain42 world42)) 3 =
     \<lparr>isOk = True, error = Plain Undefined, value = Plain (Num 42)\<rparr> \<and>
   unwrap \<lparr>result = Immediate 3, Safe_isOk = Plain (Bool True)\<rparr>
     (snd (watch unruly_consumer chain42 world42)) = Return (Plain (Num 42))"
proof -
  have wf: "wf_chain world42 chain42" by code_simp
  have a: "settled (result chain42) = Some 1" by code_simp
  define r where "r = fst (watch unruly_consumer chain42 world42)"
  define w' where "w' = snd (watch unruly_consumer chain42 world42)"
  have run: "watch unruly_consumer chain42 world42 = (r, w')"
    by (simp add: r_def w'_def)
  have c: "store world42 1 = \<lparr>isOk = True, error = Plain Undefined, value = Plain (Num 42)\<rparr>"
    "fresh world42 = 2" "user world42 = 0"
    "unwrap chain42 world42 = Return (Plain (Num 42))"
    by code_simp+
  have r: "r = Return \<lparr>result = Immediate 3, Safe_isOk = Plain (Bool True)\<rparr>"
    unfolding r_def by code_simp
  from watch_snapshot_is_a_copy [OF wf a run]
  obtain c' a' where s: "store w' (fresh world42) =
        snd (fst (unruly_consumer (store world42 1) (user world42)))"
      "store w' 1 = store world42 1"
    and c': "r = Return c'" "settled (result c') = Some a'"
      "isOk (store world42 1) \<or> instanceof_Error (error (store world42 1)) \<longrightarrow>
         store w' a' = store world42 1 \<and> unwrap c' w' = unwrap chain42 world42"
    by blast
  from c'(1) c'(2) r have a': "a' = 3" by auto
  from c'(3) c have "store w' a' = store world42 1" "unwrap c' w' = unwrap chain42 world42"
    by simp_all
  with s c' r a' wf a c show ?thesis
    by (simp add: r_def [symmetric] w'_def [symmetric] unruly_consumer_def)
qed

end
